theory Spec2Isabelle
  imports Main
begin

section \<open>Python string operations used by the command matcher\<close>

text \<open>
  Python strings are modelled as \<^typ>\<open>string\<close>; a character stands for the code point
  of the same number, so the model covers texts whose code points are below 256.
  On that range \<^verbatim>\<open>str.lower\<close> maps \<^verbatim>\<open>A-Z\<close> (65..90) and the accented capitals
  192..222 other than the multiplication sign 215 to the code point 32 above, and leaves
  every other character alone; \<^verbatim>\<open>str.isspace\<close> holds of 9..13, 28..32, 133 and 160.
\<close>

definition lower_char :: "char \<Rightarrow> char" where
  "lower_char c =
     (let n = (of_char c :: nat)
      in if (65 \<le> n \<and> n \<le> 90) \<or> (192 \<le> n \<and> n \<le> 222 \<and> n \<noteq> 215)
         then char_of (n + 32) else c)"

definition lower :: "string \<Rightarrow> string" where
  "lower s = map lower_char s"

definition isspace :: "char \<Rightarrow> bool" where
  "isspace c =
     (let n = (of_char c :: nat)
      in (9 \<le> n \<and> n \<le> 13) \<or> (28 \<le> n \<and> n \<le> 32) \<or> n = 133 \<or> n = 160)"

text \<open>\<^verbatim>\<open>s.strip()\<close>: leading and trailing whitespace removed.\<close>

definition strip :: "string \<Rightarrow> string" where
  "strip s = rev (dropWhile isspace (rev (dropWhile isspace s)))"

text \<open>\<^verbatim>\<open>s.startswith(sub)\<close>.\<close>

fun startswith :: "string \<Rightarrow> string \<Rightarrow> bool" where
  "startswith s [] = True"
| "startswith [] (x # sub) = False"
| "startswith (c # s) (x # sub) = (c = x \<and> startswith s sub)"

text \<open>\<^verbatim>\<open>sub in s\<close>: some position of \<open>s\<close> starts with \<open>sub\<close>.\<close>

fun str_contains :: "string \<Rightarrow> string \<Rightarrow> bool" where
  "str_contains sub [] = (sub = [])"
| "str_contains sub (c # s) = (startswith (c # s) sub \<or> str_contains sub s)"

text \<open>
  What \<^verbatim>\<open>sub in s\<close> means: \<open>sub\<close> is a contiguous part of \<open>s\<close>. The theorems are
  stated with this; \<^const>\<open>str_contains\<close> is shown to decide it.
\<close>

definition is_substring :: "string \<Rightarrow> string \<Rightarrow> bool" where
  "is_substring sub s \<longleftrightarrow> (\<exists>pre post. s = pre @ sub @ post)"

text \<open>
  \<^verbatim>\<open>s.replace(old, new)\<close>: every occurrence of \<open>old\<close> is replaced, scanning from the
  left and continuing after each replaced occurrence (occurrences do not overlap).
  With an empty \<open>old\<close>, Python inserts \<open>new\<close> before every character and at the end.
\<close>

function replace_scan :: "string \<Rightarrow> string \<Rightarrow> string \<Rightarrow> string" where
  "replace_scan old new [] = []"
| "replace_scan old new (c # s) =
     (if old \<noteq> [] \<and> startswith (c # s) old
      then new @ replace_scan old new (drop (length old) (c # s))
      else c # replace_scan old new s)"
  by pat_completeness auto
termination
  by (relation "measure (\<lambda>(old, new, s). length s)") (auto simp: Suc_diff_le)

definition replace :: "string \<Rightarrow> string \<Rightarrow> string \<Rightarrow> string" where
  "replace s old new =
     (if old = [] then new @ concat (map (\<lambda>c. c # new) s)
      else replace_scan old new s)"

section \<open>Configuration\<close>

text \<open>
  The configuration is a Python dict read with \<^verbatim>\<open>config.get(key, default)\<close>; a field is
  \<open>None\<close> when the key is absent. \<open>commands\<close> is a dict from action name to a list of
  trigger phrases; \<^verbatim>\<open>commands.items()\<close> yields its entries in insertion order, so it is
  an association list. Only the keys read by the matcher and the listener are modelled.
\<close>

record config =
  wake_word_enabled :: "bool option"
  wake_word :: "string option"
  commands :: "(string \<times> string list) list option"
  mic_device :: "nat option"

text \<open>\<^verbatim>\<open>d.get(key, default)\<close>.\<close>

definition get_default :: "'a option \<Rightarrow> 'a \<Rightarrow> 'a" where
  "get_default v d = (case v of None \<Rightarrow> d | Some x \<Rightarrow> x)"

definition DEFAULT_CONFIG :: config where
  "DEFAULT_CONFIG =
     \<lparr> wake_word_enabled = Some True,
       wake_word = Some ''hey music'',
       commands = Some [(''next'', [''next'', ''skip'']),
                        (''back'', [''back'', ''previous'']),
                        (''pause'', [''pause'', ''stop'']),
                        (''play'', [''play'', ''resume''])],
       mic_device = None \<rparr>"

section \<open>Command matching (commands.py)\<close>

text \<open>
  Lines 45 to 56 of \<^verbatim>\<open>match_command\<close>: the text in which triggers are searched, or
  \<open>None\<close> where the function returns \<^verbatim>\<open>None\<close> before reaching the command loop.
\<close>

definition command_text :: "string \<Rightarrow> config \<Rightarrow> string option" where
  "command_text text cfg =
     (let text = strip (lower text)
      in if text = [] then None
         else if get_default (wake_word_enabled cfg) True
         then (let wake = lower (get_default (wake_word cfg) ''hey music'')
               in if \<not> str_contains wake text then None
                  else Some (strip (replace text wake [])))
         else Some text)"

text \<open>The inner loop of lines 61 to 64: does some trigger of the list occur in the text?\<close>

fun any_trigger :: "string list \<Rightarrow> string \<Rightarrow> bool" where
  "any_trigger [] text = False"
| "any_trigger (trigger # triggers) text =
     (if str_contains (lower trigger) text then True else any_trigger triggers text)"

text \<open>The outer loop of lines 60 to 66 over \<^verbatim>\<open>commands.items()\<close>.\<close>

fun find_command :: "(string \<times> string list) list \<Rightarrow> string \<Rightarrow> string option" where
  "find_command [] text = None"
| "find_command ((action, triggers) # rest) text =
     (if any_trigger triggers text then Some action else find_command rest text)"

definition match_command :: "string \<Rightarrow> config \<Rightarrow> string option" where
  "match_command text cfg =
     (case command_text text cfg of
        None \<Rightarrow> None
      | Some t \<Rightarrow> find_command (get_default (commands cfg) []) t)"

section \<open>Media keys (commands.py)\<close>

text \<open>
  An exception is modelled by its message, the text \<^verbatim>\<open>{e}\<close> prints. Every call the
  program makes on an external collaborator (the keyboard controller, the capture
  stream, the worker thread) and every callback it invokes is recorded, in order, as an
  \<open>effect\<close>; a call that raises is recorded too, since it was made.
\<close>

datatype exn = Exn string

datatype media_key = media_next | media_previous | media_play_pause

datatype effect =
    Press media_key
  | Release media_key
  | OnCommand string
  | OnError string
  | OnStatus string
  | StreamStart
  | StreamStop
  | StreamClose
  | ThreadStart
  | ThreadJoin

definition MEDIA_KEYS :: "string \<Rightarrow> media_key option" where
  "MEDIA_KEYS =
     map_of [(''next'', media_next),
             (''back'', media_previous),
             (''pause'', media_play_pause),
             (''play'', media_play_pause)]"

text \<open>
  The pynput controller is outside the repository: what \<^verbatim>\<open>keyboard.press\<close> and
  \<^verbatim>\<open>keyboard.release\<close> do is a parameter, \<open>None\<close> for a call that returns and
  \<open>Some e\<close> for one that raises \<open>e\<close>.
\<close>

record keyboard =
  press :: "media_key \<Rightarrow> exn option"
  release :: "media_key \<Rightarrow> exn option"

text \<open>
  \<^verbatim>\<open>send_media_key\<close> returns its boolean and the keyboard calls it made. The
  \<^verbatim>\<open>try\<close> block ends at the first call that raises, and the handler returns
  \<^verbatim>\<open>False\<close>.
\<close>

definition send_media_key :: "keyboard \<Rightarrow> string \<Rightarrow> bool \<times> effect list" where
  "send_media_key kb action =
     (case MEDIA_KEYS action of
        None \<Rightarrow> (False, [])
      | Some key \<Rightarrow>
          (case press kb key of
             Some e \<Rightarrow> (False, [Press key])
           | None \<Rightarrow>
               (case release kb key of
                  Some e \<Rightarrow> (False, [Press key, Release key])
                | None \<Rightarrow> (True, [Press key, Release key]))))"

section \<open>The listener (listener.py)\<close>

type_synonym frame = string

text \<open>
  What one feed of the recognition engine does (lines 99 to 101): it raises, or
  \<^verbatim>\<open>AcceptWaveform\<close> returns false (a partial result), or it returns true and the
  result's \<^verbatim>\<open>"text"\<close> entry (\<^verbatim>\<open>""\<close> when absent) is the given string.
\<close>

datatype feed = Raises exn | Partial | Final string

datatype vosk_model = Model string

datatype input_stream = RawInputStream "nat option"

datatype worker = Thread (is_alive: bool)

text \<open>
  The behaviour of the collaborators outside the repository (file system, Vosk,
  sounddevice, threading, pynput) is a parameter of the model. The engine's answer to a
  frame may depend on the frames it was fed before.
\<close>

record env =
  model_path :: string
  path_exists :: bool
  Model_raises :: "exn option"
  KaldiRecognizer_raises :: "exn option"
  RawInputStream_raises :: "exn option"
  stream_start_raises :: "exn option"
  stream_stop_raises :: "exn option"
  stream_close_raises :: "exn option"
  join_exits :: bool
  AcceptWaveform :: "frame list \<Rightarrow> frame \<Rightarrow> feed"
  kbd :: keyboard

text \<open>
  The fields of \<^verbatim>\<open>VoiceListener\<close>. A callback field is \<open>True\<close> when a callback was
  supplied (it is not \<^verbatim>\<open>None\<close>); callbacks are assumed to return normally.
  \<open>recognizer\<close> holds the frames fed to the engine so far. \<open>trace\<close> is not a field of
  the class: it collects the effects.
\<close>

record listener =
  config :: config
  on_command :: bool
  on_error :: bool
  on_status :: bool
  model :: "vosk_model option"
  recognizer :: "frame list option"
  stream :: "input_stream option"
  audio_queue :: "frame list"
  running :: bool
  paused :: bool
  thread :: "worker option"
  trace :: "effect list"

text \<open>\<^verbatim>\<open>__init__\<close>.\<close>

definition init :: "config \<Rightarrow> bool \<Rightarrow> bool \<Rightarrow> bool \<Rightarrow> listener" where
  "init cfg on_cmd on_err on_st =
     \<lparr> config = cfg, on_command = on_cmd, on_error = on_err, on_status = on_st,
       model = None, recognizer = None, stream = None, audio_queue = [],
       running = False, paused = False, thread = None, trace = [] \<rparr>"

definition emit :: "effect list \<Rightarrow> listener \<Rightarrow> listener" where
  "emit es s = s\<lparr>trace := trace s @ es\<rparr>"

text \<open>\<^verbatim>\<open>if self.on_error: self.on_error(error_msg)\<close>, and the same for the other two.\<close>

definition call_on_error :: "string \<Rightarrow> listener \<Rightarrow> listener" where
  "call_on_error msg s = (if on_error s then emit [OnError msg] s else s)"

definition call_on_status :: "string \<Rightarrow> listener \<Rightarrow> listener" where
  "call_on_status st s = (if on_status s then emit [OnStatus st] s else s)"

definition call_on_command :: "string \<Rightarrow> listener \<Rightarrow> listener" where
  "call_on_command action s = (if on_command s then emit [OnCommand action] s else s)"

definition load_model :: "env \<Rightarrow> listener \<Rightarrow> bool \<times> listener" where
  "load_model env s =
     (if \<not> path_exists env
      then (False, call_on_error (''Vosk model not found at: '' @ model_path env) s)
      else
        (case Model_raises env of
           Some (Exn e) \<Rightarrow> (False, call_on_error (''Failed to load Vosk model: '' @ e) s)
         | None \<Rightarrow>
             (let s = s\<lparr>model := Some (Model (model_path env))\<rparr>
              in case KaldiRecognizer_raises env of
                   Some (Exn e) \<Rightarrow>
                     (False, call_on_error (''Failed to load Vosk model: '' @ e) s)
                 | None \<Rightarrow> (True, s\<lparr>recognizer := Some []\<rparr>))))"

text \<open>\<^verbatim>\<open>_audio_callback\<close>; its \<open>status\<close> argument is only logged.\<close>

definition audio_callback :: "frame \<Rightarrow> listener \<Rightarrow> listener" where
  "audio_callback indata s =
     (if \<not> paused s then s\<lparr>audio_queue := audio_queue s @ [indata]\<rparr> else s)"

text \<open>
  \<^verbatim>\<open>_handle_recognition\<close>. The test \<^verbatim>\<open>if action:\<close> fails for \<^verbatim>\<open>None\<close> and for
  the empty action name.
\<close>

definition handle_recognition :: "env \<Rightarrow> string \<Rightarrow> listener \<Rightarrow> listener" where
  "handle_recognition env text s =
     (case match_command text (config s) of
        None \<Rightarrow> s
      | Some action \<Rightarrow>
          if action = [] then s
          else call_on_command action (emit (snd (send_media_key (kbd env) action)) s))"

text \<open>
  One pass through the body of the loop of \<^verbatim>\<open>_process_audio\<close>. The pass either
  reaches the loop condition again or ends with an exception that nothing in the
  function catches. \<^verbatim>\<open>queue.get(timeout=0.5)\<close> on an empty queue times out.
  After \<^verbatim>\<open>stop()\<close> the recognizer is \<^verbatim>\<open>None\<close>, and calling a method on it raises.
\<close>

datatype pass = Continue listener | Escaped exn listener

definition process_frame :: "env \<Rightarrow> listener \<Rightarrow> pass" where
  "process_frame env s =
     (case audio_queue s of
        [] \<Rightarrow> Continue s
      | data # rest \<Rightarrow>
          (let s = s\<lparr>audio_queue := rest\<rparr>
           in if paused s then Continue s
              else
                (case recognizer s of
                   None \<Rightarrow>
                     Escaped (Exn (CHR 0x27 # ''NoneType'' @ CHR 0x27
                                   # '' object has no attribute '' @ CHR 0x27
                                   # ''AcceptWaveform'' @ [CHR 0x27])) s
                 | Some fed \<Rightarrow>
                     (let s = s\<lparr>recognizer := Some (fed @ [data])\<rparr>
                      in case AcceptWaveform env fed data of
                           Raises e \<Rightarrow> Escaped e s
                         | Partial \<Rightarrow> Continue s
                         | Final text \<Rightarrow>
                             if text \<noteq> [] then Continue (handle_recognition env text s)
                             else Continue s))))"

text \<open>
  \<^verbatim>\<open>_process_audio\<close>, run while no other thread acts. The loop need not end (an empty
  queue and a set running flag time out for ever), so the first argument bounds the
  number of passes; \<open>None\<close> is a loop still running after that many. A finished loop
  gives the escaped exception, if any, and the state. The function is the target of the
  worker thread: when it ends, by return or by exception, that thread is no longer
  alive.
\<close>

definition thread_ended :: "listener \<Rightarrow> listener" where
  "thread_ended s =
     (case thread s of None \<Rightarrow> s | Some t \<Rightarrow> s\<lparr>thread := Some (Thread False)\<rparr>)"

fun process_audio :: "nat \<Rightarrow> env \<Rightarrow> listener \<Rightarrow> (exn option \<times> listener) option" where
  "process_audio 0 env s = (if \<not> running s then Some (None, thread_ended s) else None)"
| "process_audio (Suc fuel) env s =
     (if \<not> running s then Some (None, thread_ended s)
      else
        (case process_frame env s of
           Continue s' \<Rightarrow> process_audio fuel env s'
         | Escaped e s' \<Rightarrow> Some (Some e, thread_ended s')))"

text \<open>\<^verbatim>\<open>start\<close>.\<close>

definition start :: "env \<Rightarrow> listener \<Rightarrow> bool \<times> listener" where
  "start env s =
     (if running s then (True, s)
      else
        (case load_model env s of
           (False, s) \<Rightarrow> (False, s)
         | (True, s) \<Rightarrow>
             (case RawInputStream_raises env of
                Some (Exn e) \<Rightarrow> (False, call_on_error (''Failed to open microphone: '' @ e) s)
              | None \<Rightarrow>
                  (let s = emit [StreamStart]
                             (s\<lparr>stream := Some (RawInputStream (mic_device (config s)))\<rparr>)
                   in case stream_start_raises env of
                        Some (Exn e) \<Rightarrow>
                          (False, call_on_error (''Failed to open microphone: '' @ e) s)
                      | None \<Rightarrow>
                          (let s = emit [ThreadStart]
                                     (s\<lparr>running := True, paused := False,
                                        thread := Some (Thread True)\<rparr>)
                           in (True, call_on_status ''listening'' s))))))"



text \<open>\<^verbatim>\<open>pause\<close>, \<^verbatim>\<open>resume\<close>, \<^verbatim>\<open>is_paused\<close>, \<^verbatim>\<open>is_running\<close>, \<^verbatim>\<open>reload_config\<close>.\<close>

definition pause :: "listener \<Rightarrow> listener" where
  "pause s = call_on_status ''paused'' (s\<lparr>paused := True\<rparr>)"

definition resume :: "listener \<Rightarrow> listener" where
  "resume s = call_on_status ''listening'' (s\<lparr>paused := False\<rparr>)"

definition is_paused :: "listener \<Rightarrow> bool" where
  "is_paused s = paused s"

definition is_running :: "listener \<Rightarrow> bool" where
  "is_running s = running s"

definition reload_config :: "config \<Rightarrow> listener \<Rightarrow> listener" where
  "reload_config cfg s = s\<lparr>config := cfg\<rparr>"

text \<open>The effects of an operation: what the trace of \<open>s'\<close> has beyond that of \<open>s\<close>.\<close>

definition new_effects :: "listener \<Rightarrow> listener \<Rightarrow> effect list" where
  "new_effects s s' = drop (length (trace s)) (trace s')"

section \<open>The matcher as the specification words it\<close>

text \<open>
  The specification's step 2 removes the first occurrence of the wake word only. These
  definitions follow its words, for comparison with \<^const>\<open>command_text\<close> and
  \<^const>\<open>match_command\<close>, which follow the code.
\<close>

fun remove_first :: "string \<Rightarrow> string \<Rightarrow> string" where
  "remove_first old [] = []"
| "remove_first old (c # s) =
     (if startswith (c # s) old then drop (length old) (c # s)
      else c # remove_first old s)"

definition spec_command_text :: "string \<Rightarrow> config \<Rightarrow> string option" where
  "spec_command_text text cfg =
     (let text = strip (lower text)
      in if text = [] then None
         else if get_default (wake_word_enabled cfg) True
         then (let wake = lower (get_default (wake_word cfg) ''hey music'')
               in if \<not> str_contains wake text then None
                  else Some (strip (remove_first wake text)))
         else Some text)"

definition spec_match_command :: "string \<Rightarrow> config \<Rightarrow> string option" where
  "spec_match_command text cfg =
     (case spec_command_text text cfg of
        None \<Rightarrow> None
      | Some t \<Rightarrow> find_command (get_default (commands cfg) []) t)"

section \<open>Sample collaborators and states\<close>

text \<open>Collaborators that never fail, with an engine that finalises nothing.\<close>

definition calm_env :: env where
  "calm_env =
     \<lparr> model_path = ''model'', path_exists = True, Model_raises = None,
       KaldiRecognizer_raises = None, RawInputStream_raises = None,
       stream_start_raises = None, stream_stop_raises = None,
       stream_close_raises = None, join_exits = True,
       AcceptWaveform = (\<lambda>fed data. Partial),
       kbd = \<lparr> press = (\<lambda>k. None), release = (\<lambda>k. None) \<rparr> \<rparr>"

text \<open>A listener as \<^verbatim>\<open>main.py\<close> builds it: default configuration, all callbacks.\<close>

definition fresh :: listener where
  "fresh = init DEFAULT_CONFIG True True True"

text \<open>A listener in the middle of a session, after a successful \<^verbatim>\<open>start\<close>.\<close>

definition listening :: listener where
  "listening = snd (start calm_env fresh)"

section \<open>Properties of the string operations\<close>


lemma startswith_iff: "startswith s sub \<longleftrightarrow> (\<exists>post. s = sub @ post)"
  by (induction s sub rule: startswith.induct) auto

lemma startswith_take: "startswith s sub \<longleftrightarrow> take (length sub) s = sub"
  by (induction s sub rule: startswith.induct) auto

lemma replace_scan_absent:
  "\<not> str_contains old s \<Longrightarrow> replace_scan old new s = s"
  by (induction s) auto

lemma startswith_longer:
  assumes "old \<noteq> []" and "startswith ((a # pre) @ old @ post) old"
  shows "startswith ((a # pre) @ butlast old) old"
proof -
  have "old @ post = butlast old @ (last old # post)"
    using assms(1) by (metis append_butlast_last_id append.assoc append_Cons append_Nil)
  then have eq: "(a # pre) @ old @ post = ((a # pre) @ butlast old) @ (last old # post)"
    by simp
  have len: "length old \<le> length ((a # pre) @ butlast old)" by simp
  have "take (length old) ((a # pre) @ old @ post) = take (length old) ((a # pre) @ butlast old)"
    unfolding eq using len by (simp only: take_append diff_is_0_eq' take_0 append_Nil2)
  then show ?thesis using assms(2) by (simp only: startswith_take)
qed

lemma replace_scan_first:
  assumes "old \<noteq> []" and "\<not> str_contains old (pre @ butlast old)"
  shows "replace_scan old new (pre @ old @ post) = pre @ new @ replace_scan old new post"
  using assms
proof (induction pre)
  case Nil
  then obtain c r where old: "old = c # r" by (cases old) auto
  have "startswith (old @ post) old" by (simp add: startswith_iff)
  then have "replace_scan old new (old @ post) = new @ replace_scan old new (drop (length old) (old @ post))"
    unfolding old by (simp del: drop_Suc_Cons)
  then show ?case by simp
next
  case (Cons a pre)
  have no: "\<not> startswith ((a # pre) @ butlast old) old"
    and rest: "\<not> str_contains old (pre @ butlast old)"
    using Cons.prems(2) by auto
  have "\<not> startswith ((a # pre) @ old @ post) old"
    using no startswith_longer[OF Cons.prems(1)] by blast
  then have "replace_scan old new ((a # pre) @ old @ post) = a # replace_scan old new (pre @ old @ post)"
    by simp
  then show ?case using Cons.IH[OF Cons.prems(1) rest] by simp
qed

lemma concat_singletons: "concat (map (\<lambda>c. [c]) s) = s"
  by (induction s) auto

lemma remove_first_empty: "remove_first [] s = s"
  by (cases s) auto

lemma replace_scan_remove_first:
  "old \<noteq> [] \<Longrightarrow> \<not> str_contains old (remove_first old s) \<Longrightarrow>
     replace_scan old [] s = remove_first old s"
proof (induction s)
  case Nil
  then show ?case by simp
next
  case (Cons c s)
  show ?case
  proof (cases "startswith (c # s) old")
    case True
    then have r: "remove_first old (c # s) = drop (length old) (c # s)"
      by (simp del: drop_Suc_Cons)
    have "replace_scan old [] (c # s) = replace_scan old [] (drop (length old) (c # s))"
      using True Cons.prems(1) by (simp del: drop_Suc_Cons)
    also have "\<dots> = drop (length old) (c # s)"
      using Cons.prems(2) unfolding r by (rule replace_scan_absent)
    finally show ?thesis using r by simp
  next
    case False
    then have "\<not> str_contains old (remove_first old s)" using Cons.prems(2) by auto
    then show ?thesis using False Cons.IH Cons.prems(1) by simp
  qed
qed

lemma replace_remove_first:
  "\<not> str_contains old (remove_first old s) \<Longrightarrow> replace s old [] = remove_first old s"
  by (cases "old = []")
     (simp_all add: replace_def concat_singletons remove_first_empty replace_scan_remove_first)

lemma replace_first:
  "old \<noteq> [] \<Longrightarrow> \<not> str_contains old (pre @ butlast old) \<Longrightarrow>
     replace (pre @ old @ post) old new = pre @ new @ replace post old new"
  by (simp add: replace_def replace_scan_first)

lemma str_contains_iff: "str_contains sub s \<longleftrightarrow> is_substring sub s"
  unfolding is_substring_def
proof (induction s)
  case Nil
  then show ?case by auto
next
  case (Cons c s)
  show ?case
  proof
    assume "str_contains sub (c # s)"
    then consider "startswith (c # s) sub" | "str_contains sub s" by auto
    then show "\<exists>pre post. c # s = pre @ sub @ post"
    proof cases
      case 1
      then obtain post where "c # s = sub @ post" by (auto simp: startswith_iff)
      then have "c # s = [] @ sub @ post" by simp
      then show ?thesis by blast
    next
      case 2
      then obtain pre post where "s = pre @ sub @ post" using Cons.IH by blast
      then have "c # s = (c # pre) @ sub @ post" by simp
      then show ?thesis by blast
    qed
  next
    assume "\<exists>pre post. c # s = pre @ sub @ post"
    then obtain pre post where eq: "c # s = pre @ sub @ post" by blast
    show "str_contains sub (c # s)"
    proof (cases pre)
      case Nil
      then have "startswith (c # s) sub" using eq by (auto simp: startswith_iff)
      then show ?thesis by simp
    next
      case (Cons a pre')
      then have "s = pre' @ sub @ post" using eq by simp
      then have "str_contains sub s" using Cons.IH by blast
      then show ?thesis by simp
    qed
  qed
qed

section \<open>The command matcher\<close>

lemma any_trigger_iff:
  "any_trigger triggers t \<longleftrightarrow> (\<exists>trigger \<in> set triggers. is_substring (lower trigger) t)"
  by (induction triggers) (auto simp: str_contains_iff)

lemma find_command_find:
  "find_command cmds t = map_option fst (find (\<lambda>(action, triggers). any_trigger triggers t) cmds)"
  by (induction cmds t rule: find_command.induct) auto

lemma find_command_keys:
  "find_command cmds t = Some action \<Longrightarrow> action \<in> fst ` set cmds"
  by (induction cmds t rule: find_command.induct) (auto split: if_splits)

text \<open>The examples of the specification's section 8, run on the model.\<close>

lemma match_command_wake_word_stripped:
  "match_command ''hey music next please'' DEFAULT_CONFIG = Some ''next''"
  by code_simp

lemma match_command_replay:
  "match_command ''replay the song''
     (DEFAULT_CONFIG\<lparr>wake_word_enabled := Some False\<rparr>) = Some ''play''"
  by code_simp

lemma match_command_declaration_order:
  "match_command ''next and then back''
     \<lparr> wake_word_enabled = Some False, wake_word = None,
       commands = Some [(''back'', [''back'']), (''next'', [''next''])],
       mic_device = None \<rparr> = Some ''back''"
  by code_simp

text \<open>
  C1, as the specification states it: with the wake word enabled and present, triggers
  are searched in the text with only the first occurrence of the wake word removed. The
  code removes every occurrence: when the wake word is spoken twice and a trigger occurs
  inside it, the specification's matcher finds the trigger in the second occurrence and
  the code's matcher finds nothing.
\<close>

theorem match_command_first_occurrence_counterexample:
  "command_text ''hey music hey music''
     (DEFAULT_CONFIG\<lparr>commands := Some [(''play'', [''play'', ''music''])]\<rparr>) = Some []
   \<and> spec_command_text ''hey music hey music''
     (DEFAULT_CONFIG\<lparr>commands := Some [(''play'', [''play'', ''music''])]\<rparr>) = Some ''hey music''
   \<and> match_command ''hey music hey music''
     (DEFAULT_CONFIG\<lparr>commands := Some [(''play'', [''play'', ''music''])]\<rparr>) = None
   \<and> spec_match_command ''hey music hey music''
     (DEFAULT_CONFIG\<lparr>commands := Some [(''play'', [''play'', ''music''])]\<rparr>) = Some ''play''"
  by code_simp

text \<open>
  C1, amended: with the wake word enabled and occurring in the non-empty lowercased and
  trimmed text, triggers are searched in that text with every occurrence of the wake
  word removed, trimmed again. The occurrences are found from the left, each search
  starting after the occurrence removed before: the first occurrence goes, and the rest
  of the text after it is treated the same way. Where removing the first occurrence
  leaves no occurrence, the result is the one the specification describes.
\<close>

theorem match_command_removes_all_wake_words:
  assumes "get_default (wake_word_enabled cfg) True"
    and "w = lower (get_default (wake_word cfg) ''hey music'')"
    and "t = strip (lower text)"
    and "t \<noteq> []"
    and "is_substring w t"
  shows "command_text text cfg = Some (strip (replace t w []))
    \<and> match_command text cfg =
        find_command (get_default (commands cfg) []) (strip (replace t w []))
    \<and> (\<forall>pre post. w \<noteq> [] \<and> t = pre @ w @ post \<and> \<not> is_substring w (pre @ butlast w)
          \<longrightarrow> replace t w [] = pre @ replace post w [])
    \<and> (\<not> is_substring w (remove_first w t) \<longrightarrow> replace t w [] = remove_first w t)"
proof -
  have c: "str_contains w t" using assms(5) by (simp add: str_contains_iff)
  have ct: "command_text text cfg = Some (strip (replace t w []))"
    using assms(1-4) c by (simp add: command_text_def Let_def)
  have m: "match_command text cfg =
      find_command (get_default (commands cfg) []) (strip (replace t w []))"
    by (simp add: match_command_def ct)
  have f: "\<forall>pre post. w \<noteq> [] \<and> t = pre @ w @ post \<and> \<not> is_substring w (pre @ butlast w)
          \<longrightarrow> replace t w [] = pre @ replace post w []"
    using replace_first[of w _ _ "[]"] by (auto simp: str_contains_iff)
  have r: "\<not> is_substring w (remove_first w t) \<longrightarrow> replace t w [] = remove_first w t"
    using replace_remove_first[of w t] by (simp add: str_contains_iff)
  show ?thesis using ct m f r by blast
qed

theorem match_command_removes_all_wake_words_witness:
  "get_default (wake_word_enabled DEFAULT_CONFIG) True
   \<and> strip (lower ''Hey Music skip hey music'') \<noteq> []
   \<and> is_substring ''hey music'' (strip (lower ''Hey Music skip hey music''))
   \<and> command_text ''Hey Music skip hey music'' DEFAULT_CONFIG = Some ''skip''
   \<and> match_command ''Hey Music skip hey music'' DEFAULT_CONFIG = Some ''next''"
proof -
  have h1: "get_default (wake_word_enabled DEFAULT_CONFIG) True" by code_simp
  have h2: "''hey music'' = lower (get_default (wake_word DEFAULT_CONFIG) ''hey music'')"
    by code_simp
  have h3: "''hey music skip hey music'' = strip (lower ''Hey Music skip hey music'')"
    by code_simp
  have h4: "''hey music skip hey music'' \<noteq> []" by simp
  have "str_contains ''hey music'' ''hey music skip hey music''" by code_simp
  then have h5: "is_substring ''hey music'' ''hey music skip hey music''"
    unfolding str_contains_iff .
  have e1: "strip (replace ''hey music skip hey music'' ''hey music'' []) = ''skip''"
    by code_simp
  have e2: "find_command (get_default (commands DEFAULT_CONFIG) []) ''skip'' = Some ''next''"
    by code_simp
  show ?thesis
    using match_command_removes_all_wake_words[OF h1 h2 h3 h4 h5] h1 h4 h5
    unfolding h3[symmetric] e1 e2 by blast
qed

text \<open>
  C3: once the text has passed the wake-word gate, the result is the action of the first
  entry of the commands mapping, in its order, one of whose triggers, lowercased, is a
  substring of the remaining text; it is no match when there is no such entry.
\<close>

theorem match_command_first_declared_action:
  assumes "command_text text cfg = Some t"
  shows "match_command text cfg =
     map_option fst
       (find (\<lambda>(action, triggers). \<exists>trigger \<in> set triggers. is_substring (lower trigger) t)
          (get_default (commands cfg) []))"
  using assms by (simp add: match_command_def find_command_find any_trigger_iff)

theorem match_command_first_declared_action_witness:
  "command_text ''Hey Music next and then back''
      (DEFAULT_CONFIG\<lparr>commands := Some [(''back'', [''go back'', ''back'']), (''next'', [''next''])]\<rparr>)
     = Some ''next and then back''
   \<and> match_command ''Hey Music next and then back''
      (DEFAULT_CONFIG\<lparr>commands := Some [(''back'', [''go back'', ''back'']), (''next'', [''next''])]\<rparr>)
     = Some ''back''
   \<and> map_option fst
       (find (\<lambda>(action, triggers). \<exists>trigger \<in> set triggers.
                is_substring (lower trigger) ''next and then back'')
          (get_default (commands
             (DEFAULT_CONFIG\<lparr>commands := Some [(''back'', [''go back'', ''back'']), (''next'', [''next''])]\<rparr>)) []))
     = Some ''back''"
proof -
  have h: "command_text ''Hey Music next and then back''
      (DEFAULT_CONFIG\<lparr>commands := Some [(''back'', [''go back'', ''back'']), (''next'', [''next''])]\<rparr>)
     = Some ''next and then back''"
    by code_simp
  have m: "match_command ''Hey Music next and then back''
      (DEFAULT_CONFIG\<lparr>commands := Some [(''back'', [''go back'', ''back'']), (''next'', [''next''])]\<rparr>)
     = Some ''back''"
    by code_simp
  show ?thesis
    using match_command_first_declared_action[OF h] h m by simp
qed

text \<open>
  C4: with the wake word enabled (or the key absent, which defaults to enabled), a text
  whose lowercased and trimmed form does not contain the lowercased wake word matches
  nothing; and a text that is empty after lowercasing and trimming matches nothing,
  whatever the configuration.
\<close>

theorem match_command_wake_word_gate:
  "(get_default (wake_word_enabled cfg) True
      \<and> \<not> is_substring (lower (get_default (wake_word cfg) ''hey music'')) (strip (lower text))
      \<longrightarrow> match_command text cfg = None)
   \<and> (strip (lower text) = [] \<longrightarrow> match_command text cfg = None)"
  by (simp add: match_command_def command_text_def Let_def str_contains_iff)

theorem match_command_wake_word_gate_witness:
  "get_default (wake_word_enabled DEFAULT_CONFIG) True
   \<and> \<not> is_substring (lower (get_default (wake_word DEFAULT_CONFIG) ''hey music''))
        (strip (lower ''Next please''))
   \<and> match_command ''Next please'' DEFAULT_CONFIG = None
   \<and> strip (lower [CHR 0x20, CHR 0x09, CHR 0x0A]) = []
   \<and> match_command [CHR 0x20, CHR 0x09, CHR 0x0A] DEFAULT_CONFIG = None"
proof -
  have h1: "get_default (wake_word_enabled DEFAULT_CONFIG) True" by code_simp
  have "\<not> str_contains (lower (get_default (wake_word DEFAULT_CONFIG) ''hey music''))
        (strip (lower ''Next please''))"
    by code_simp
  then have h2: "\<not> is_substring (lower (get_default (wake_word DEFAULT_CONFIG) ''hey music''))
        (strip (lower ''Next please''))"
    unfolding str_contains_iff .
  have h3: "strip (lower [CHR 0x20, CHR 0x09, CHR 0x0A]) = []" by code_simp
  show ?thesis
    using match_command_wake_word_gate[of DEFAULT_CONFIG "''Next please''"]
      match_command_wake_word_gate[of DEFAULT_CONFIG "[CHR 0x20, CHR 0x09, CHR 0x0A]"]
      h1 h2 h3
    by blast
qed

section \<open>The action dispatcher\<close>

text \<open>
  C5: next maps to the next-track key, back to the previous-track key, pause and play to
  the one play/pause key. For an action with a key, \<^verbatim>\<open>press\<close> is called and then
  \<^verbatim>\<open>release\<close> (which is skipped only when \<^verbatim>\<open>press\<close> raised); the result is true when
  both calls return and false when either raises, and it is always a boolean.
\<close>

theorem send_media_key_press_release:
  "MEDIA_KEYS ''next'' = Some media_next
   \<and> MEDIA_KEYS ''back'' = Some media_previous
   \<and> MEDIA_KEYS ''pause'' = Some media_play_pause
   \<and> MEDIA_KEYS ''play'' = Some media_play_pause
   \<and> (MEDIA_KEYS action = Some key \<longrightarrow>
        send_media_key kb action =
          (press kb key = None \<and> release kb key = None,
           if press kb key = None then [Press key, Release key] else [Press key]))"
  by (auto simp: MEDIA_KEYS_def send_media_key_def split: option.splits)

theorem send_media_key_press_release_witness:
  "MEDIA_KEYS ''pause'' = Some media_play_pause
   \<and> send_media_key \<lparr>press = (\<lambda>k. None), release = (\<lambda>k. Some (Exn ''no display''))\<rparr> ''pause''
       = (False, [Press media_play_pause, Release media_play_pause])
   \<and> send_media_key \<lparr>press = (\<lambda>k. Some (Exn ''no display'')), release = (\<lambda>k. None)\<rparr> ''pause''
       = (False, [Press media_play_pause])
   \<and> send_media_key \<lparr>press = (\<lambda>k. None), release = (\<lambda>k. None)\<rparr> ''pause''
       = (True, [Press media_play_pause, Release media_play_pause])"
proof -
  have h: "MEDIA_KEYS ''pause'' = Some media_play_pause" by (simp add: MEDIA_KEYS_def)
  show ?thesis
    using h
      send_media_key_press_release
        [of "''pause''" media_play_pause
            "\<lparr>press = (\<lambda>k. None), release = (\<lambda>k. Some (Exn ''no display''))\<rparr>"]
      send_media_key_press_release
        [of "''pause''" media_play_pause
            "\<lparr>press = (\<lambda>k. Some (Exn ''no display'')), release = (\<lambda>k. None)\<rparr>"]
      send_media_key_press_release
        [of "''pause''" media_play_pause "\<lparr>press = (\<lambda>k. None), release = (\<lambda>k. None)\<rparr>"]
    by simp
qed

lemma MEDIA_KEYS_unknown:
  "action \<notin> {''next'', ''back'', ''pause'', ''play''} \<Longrightarrow> MEDIA_KEYS action = None"
  by (simp add: MEDIA_KEYS_def)

lemma emit_Nil: "emit [] s = s"
  by (simp add: emit_def)

lemma match_command_keys:
  "match_command text cfg = Some action \<Longrightarrow>
     action \<in> fst ` set (get_default (commands cfg) [])"
  by (auto simp: match_command_def split: option.splits dest: find_command_keys)

text \<open>
  C10: for an action name outside next, back, pause and play, \<^verbatim>\<open>send_media_key\<close>
  returns false and calls the keyboard not at all. \<^verbatim>\<open>match_command\<close> returns a key of
  the commands mapping, whatever it is (a mapping with the key \<^verbatim>\<open>volume_up\<close> makes it
  return that name), and \<^verbatim>\<open>_handle_recognition\<close> on such a match sends no key and does
  not fail: all it does is the command callback.
\<close>

theorem send_media_key_unknown_action:
  "(action \<notin> {''next'', ''back'', ''pause'', ''play''} \<longrightarrow>
      send_media_key kb action = (False, []))
   \<and> (match_command text cfg = Some action \<longrightarrow>
        action \<in> fst ` set (get_default (commands cfg) []))
   \<and> (match_command text (config s) = Some action \<and> action \<noteq> []
        \<and> action \<notin> {''next'', ''back'', ''pause'', ''play''} \<longrightarrow>
        handle_recognition env text s = call_on_command action s)
   \<and> match_command ''hey music louder''
        (DEFAULT_CONFIG\<lparr>commands := Some [(''volume_up'', [''louder''])]\<rparr>) = Some ''volume_up''"
proof -
  have a: "action \<notin> {''next'', ''back'', ''pause'', ''play''} \<longrightarrow>
      send_media_key kb action = (False, [])"
    using MEDIA_KEYS_unknown[of action] by (auto simp: send_media_key_def)
  have b: "match_command text cfg = Some action \<longrightarrow>
        action \<in> fst ` set (get_default (commands cfg) [])"
    using match_command_keys by blast
  have c: "match_command text (config s) = Some action \<and> action \<noteq> []
        \<and> action \<notin> {''next'', ''back'', ''pause'', ''play''} \<longrightarrow>
        handle_recognition env text s = call_on_command action s"
    using MEDIA_KEYS_unknown[of action]
    by (auto simp: handle_recognition_def send_media_key_def emit_Nil)
  have d: "match_command ''hey music louder''
        (DEFAULT_CONFIG\<lparr>commands := Some [(''volume_up'', [''louder''])]\<rparr>) = Some ''volume_up''"
    by code_simp
  show ?thesis using a b c d by blast
qed

theorem send_media_key_unknown_action_witness:
  "''volume_up'' \<notin> {''next'', ''back'', ''pause'', ''play''}
   \<and> ''volume_up'' \<noteq> []
   \<and> match_command ''hey music louder''
        (config (fresh\<lparr>config := DEFAULT_CONFIG\<lparr>commands := Some [(''volume_up'', [''louder''])]\<rparr>\<rparr>))
       = Some ''volume_up''
   \<and> send_media_key (kbd calm_env) ''volume_up'' = (False, [])
   \<and> ''volume_up'' \<in> fst ` set (get_default (commands
        (config (fresh\<lparr>config := DEFAULT_CONFIG\<lparr>commands := Some [(''volume_up'', [''louder''])]\<rparr>\<rparr>))) [])
   \<and> handle_recognition calm_env ''hey music louder''
        (fresh\<lparr>config := DEFAULT_CONFIG\<lparr>commands := Some [(''volume_up'', [''louder''])]\<rparr>\<rparr>)
       = call_on_command ''volume_up''
          (fresh\<lparr>config := DEFAULT_CONFIG\<lparr>commands := Some [(''volume_up'', [''louder''])]\<rparr>\<rparr>)"
proof -
  have h1: "''volume_up'' \<notin> {''next'', ''back'', ''pause'', ''play''}" by simp
  have h2: "''volume_up'' \<noteq> []" by simp
  have h3: "match_command ''hey music louder''
        (config (fresh\<lparr>config := DEFAULT_CONFIG\<lparr>commands := Some [(''volume_up'', [''louder''])]\<rparr>\<rparr>))
       = Some ''volume_up''"
    by code_simp
  note inst = send_media_key_unknown_action
        [of "''volume_up''" "kbd calm_env" "''hey music louder''"
            "config (fresh\<lparr>config := DEFAULT_CONFIG\<lparr>commands := Some [(''volume_up'', [''louder''])]\<rparr>\<rparr>)"
            "fresh\<lparr>config := DEFAULT_CONFIG\<lparr>commands := Some [(''volume_up'', [''louder''])]\<rparr>\<rparr>"
            calm_env]
  have r1: "send_media_key (kbd calm_env) ''volume_up'' = (False, [])"
    using inst[THEN conjunct1] h1 by (rule mp)
  have r2: "''volume_up'' \<in> fst ` set (get_default (commands
        (config (fresh\<lparr>config := DEFAULT_CONFIG\<lparr>commands := Some [(''volume_up'', [''louder''])]\<rparr>\<rparr>))) [])"
    using inst[THEN conjunct2, THEN conjunct1] h3 by (rule mp)
  have r3: "handle_recognition calm_env ''hey music louder''
        (fresh\<lparr>config := DEFAULT_CONFIG\<lparr>commands := Some [(''volume_up'', [''louder''])]\<rparr>\<rparr>)
       = call_on_command ''volume_up''
          (fresh\<lparr>config := DEFAULT_CONFIG\<lparr>commands := Some [(''volume_up'', [''louder''])]\<rparr>\<rparr>)"
    using inst[THEN conjunct2, THEN conjunct2, THEN conjunct1] conjI[OF h3 conjI[OF h2 h1]]
    by (rule mp)
  show ?thesis
    by (rule conjI[OF h1 conjI[OF h2 conjI[OF h3 conjI[OF r1 conjI[OF r2 r3]]]]])
qed

section \<open>The listener controller\<close>

lemma new_effects_append: "trace s' = trace s @ es \<Longrightarrow> new_effects s s' = es"
  by (simp add: new_effects_def)

lemma load_model_fails:
  assumes "\<not> path_exists env \<or> Model_raises env \<noteq> None \<or> KaldiRecognizer_raises env \<noteq> None"
  shows "\<exists>msg s'. load_model env s = (False, s')
           \<and> trace s' = trace s @ (if on_error s then [OnError msg] else [])
           \<and> running s' = running s \<and> paused s' = paused s \<and> thread s' = thread s
           \<and> stream s' = stream s \<and> on_error s' = on_error s"
  using assms
  by (auto simp: load_model_def call_on_error_def emit_def split: option.splits exn.splits)

lemma load_model_succeeds:
  assumes "path_exists env" and "Model_raises env = None" and "KaldiRecognizer_raises env = None"
  shows "load_model env s =
           (True, s\<lparr>model := Some (Model (model_path env)), recognizer := Some []\<rparr>)"
  using assms by (simp add: load_model_def)

text \<open>
  C6: called on a listener that is not running, \<^verbatim>\<open>start\<close> fails when the model path is
  missing, when building the model or the recognizer raises, or when opening or starting
  the capture stream raises. It then returns false, the running flag is still false, the
  thread field is untouched, no thread is started and no status callback is made; the
  one callback made is the error callback, once, when one was supplied. Otherwise it
  returns true with the running flag set, the paused flag cleared, the worker thread
  started and, last, the status callback invoked with "listening".
\<close>

theorem start_failure_and_success:
  assumes "\<not> running s"
  shows "(\<not> path_exists env \<or> Model_raises env \<noteq> None \<or> KaldiRecognizer_raises env \<noteq> None
          \<or> RawInputStream_raises env \<noteq> None \<or> stream_start_raises env \<noteq> None
        \<longrightarrow> fst (start env s) = False
            \<and> \<not> running (snd (start env s))
            \<and> thread (snd (start env s)) = thread s
            \<and> (\<exists>msg. new_effects s (snd (start env s))
                        = (if on_error s then [OnError msg] else [])
                    \<or> new_effects s (snd (start env s))
                        = StreamStart # (if on_error s then [OnError msg] else [])))
    \<and> (path_exists env \<and> Model_raises env = None \<and> KaldiRecognizer_raises env = None
          \<and> RawInputStream_raises env = None \<and> stream_start_raises env = None
        \<longrightarrow> fst (start env s) = True
            \<and> running (snd (start env s))
            \<and> \<not> paused (snd (start env s))
            \<and> thread (snd (start env s)) = Some (Thread True)
            \<and> new_effects s (snd (start env s))
                = [StreamStart, ThreadStart] @ (if on_status s then [OnStatus ''listening''] else []))"
proof (intro conjI impI)
  assume ok: "path_exists env \<and> Model_raises env = None \<and> KaldiRecognizer_raises env = None
          \<and> RawInputStream_raises env = None \<and> stream_start_raises env = None"
  then have st: "start env s =
      (True, call_on_status ''listening''
         (emit [ThreadStart]
            ((emit [StreamStart]
               (s\<lparr>model := Some (Model (model_path env)), recognizer := Some [],
                  stream := Some (RawInputStream (mic_device (config s)))\<rparr>))
             \<lparr>running := True, paused := False, thread := Some (Thread True)\<rparr>)))"
    using assms by (simp add: start_def load_model_succeeds Let_def)
  show "fst (start env s) = True" by (simp add: st)
  show "running (snd (start env s))" by (simp add: st call_on_status_def emit_def)
  show "\<not> paused (snd (start env s))" by (simp add: st call_on_status_def emit_def)
  show "thread (snd (start env s)) = Some (Thread True)"
    by (simp add: st call_on_status_def emit_def)
  show "new_effects s (snd (start env s))
          = [StreamStart, ThreadStart] @ (if on_status s then [OnStatus ''listening''] else [])"
    by (rule new_effects_append) (simp add: st call_on_status_def emit_def)
next
  assume bad: "\<not> path_exists env \<or> Model_raises env \<noteq> None \<or> KaldiRecognizer_raises env \<noteq> None
          \<or> RawInputStream_raises env \<noteq> None \<or> stream_start_raises env \<noteq> None"
  have "fst (start env s) = False
      \<and> \<not> running (snd (start env s))
      \<and> thread (snd (start env s)) = thread s
      \<and> (\<exists>msg. new_effects s (snd (start env s))
                  = (if on_error s then [OnError msg] else [])
              \<or> new_effects s (snd (start env s))
                  = StreamStart # (if on_error s then [OnError msg] else []))"
  proof (cases "\<not> path_exists env \<or> Model_raises env \<noteq> None \<or> KaldiRecognizer_raises env \<noteq> None")
    case True
    from load_model_fails[OF True, of s] obtain msg s'
      where l: "load_model env s = (False, s')"
        and t: "trace s' = trace s @ (if on_error s then [OnError msg] else [])"
        and f: "running s' = running s" "thread s' = thread s"
      by blast
    have st: "start env s = (False, s')" using assms l by (simp add: start_def)
    have "new_effects s s' = (if on_error s then [OnError msg] else [])"
      using t by (rule new_effects_append)
    then show ?thesis using st f assms by auto
  next
    case False
    then have l: "load_model env s =
        (True, s\<lparr>model := Some (Model (model_path env)), recognizer := Some []\<rparr>)"
      by (simp add: load_model_succeeds)
    from False bad have dev: "RawInputStream_raises env \<noteq> None \<or> stream_start_raises env \<noteq> None"
      by blast
    show ?thesis
    proof (cases "RawInputStream_raises env")
      case (Some e)
      obtain m where e: "e = Exn m" by (cases e)
      have st: "start env s =
          (False, call_on_error (''Failed to open microphone: '' @ m)
             (s\<lparr>model := Some (Model (model_path env)), recognizer := Some []\<rparr>))"
        using assms l Some e by (simp add: start_def)
      have "new_effects s (snd (start env s))
            = (if on_error s then [OnError (''Failed to open microphone: '' @ m)] else [])"
        by (rule new_effects_append) (simp add: st call_on_error_def emit_def)
      then show ?thesis using assms by (auto simp: st call_on_error_def emit_def)
    next
      case None
      with dev obtain e where s2: "stream_start_raises env = Some e" by auto
      obtain m where e: "e = Exn m" by (cases e)
      have st: "start env s =
          (False, call_on_error (''Failed to open microphone: '' @ m)
             (emit [StreamStart]
               (s\<lparr>model := Some (Model (model_path env)), recognizer := Some [],
                  stream := Some (RawInputStream (mic_device (config s)))\<rparr>)))"
        using assms l None s2 e by (simp add: start_def Let_def)
      have "new_effects s (snd (start env s))
            = StreamStart # (if on_error s then [OnError (''Failed to open microphone: '' @ m)] else [])"
        by (rule new_effects_append) (simp add: st call_on_error_def emit_def)
      then show ?thesis using assms by (auto simp: st call_on_error_def emit_def)
    qed
  qed
  then show "fst (start env s) = False"
    and "\<not> running (snd (start env s))"
    and "thread (snd (start env s)) = thread s"
    and "\<exists>msg. new_effects s (snd (start env s))
                  = (if on_error s then [OnError msg] else [])
              \<or> new_effects s (snd (start env s))
                  = StreamStart # (if on_error s then [OnError msg] else [])"
    by blast+
qed

theorem start_failure_and_success_witness:
  "\<not> running fresh
   \<and> \<not> path_exists (calm_env\<lparr>path_exists := False\<rparr>)
   \<and> start (calm_env\<lparr>path_exists := False\<rparr>) fresh
       = (False, fresh\<lparr>trace := [OnError ''Vosk model not found at: model'']\<rparr>)
   \<and> fst (start (calm_env\<lparr>path_exists := False\<rparr>) fresh) = False
   \<and> \<not> running (snd (start (calm_env\<lparr>path_exists := False\<rparr>) fresh))
   \<and> thread (snd (start (calm_env\<lparr>path_exists := False\<rparr>) fresh)) = thread fresh
   \<and> (path_exists calm_env \<and> Model_raises calm_env = None
        \<and> KaldiRecognizer_raises calm_env = None
        \<and> RawInputStream_raises calm_env = None \<and> stream_start_raises calm_env = None)
   \<and> fst (start calm_env fresh) = True
   \<and> running (snd (start calm_env fresh))
   \<and> thread (snd (start calm_env fresh)) = Some (Thread True)
   \<and> new_effects fresh (snd (start calm_env fresh))
       = [StreamStart, ThreadStart, OnStatus ''listening'']"
proof -
  have h: "\<not> running fresh" by code_simp
  have b: "\<not> path_exists (calm_env\<lparr>path_exists := False\<rparr>)" by simp
  have e: "start (calm_env\<lparr>path_exists := False\<rparr>) fresh
       = (False, fresh\<lparr>trace := [OnError ''Vosk model not found at: model'']\<rparr>)"
    by code_simp
  have g: "path_exists calm_env \<and> Model_raises calm_env = None
        \<and> KaldiRecognizer_raises calm_env = None
        \<and> RawInputStream_raises calm_env = None \<and> stream_start_raises calm_env = None"
    by (simp add: calm_env_def)
  have st: "on_status fresh" by code_simp
  note bad = start_failure_and_success[OF h, of "calm_env\<lparr>path_exists := False\<rparr>", THEN conjunct1]
  note good = start_failure_and_success[OF h, of calm_env, THEN conjunct2]
  have r1: "fst (start (calm_env\<lparr>path_exists := False\<rparr>) fresh) = False
      \<and> \<not> running (snd (start (calm_env\<lparr>path_exists := False\<rparr>) fresh))
      \<and> thread (snd (start (calm_env\<lparr>path_exists := False\<rparr>) fresh)) = thread fresh"
    using bad b by blast
  have r2: "fst (start calm_env fresh) = True
      \<and> running (snd (start calm_env fresh))
      \<and> thread (snd (start calm_env fresh)) = Some (Thread True)
      \<and> new_effects fresh (snd (start calm_env fresh))
          = [StreamStart, ThreadStart, OnStatus ''listening'']"
    using good g st by simp
  show ?thesis using h b e g r1 r2 by blast
qed





text \<open>
  C8: \<^verbatim>\<open>reload_config\<close> stores the new configuration and leaves every other field, and
  the trace, as it was. The worker's next pass that receives a final, non-empty text
  matches it against the new configuration: what that pass does is a function of the
  new configuration and does not depend on the one replaced.
\<close>

theorem reload_config_frame:
  "config (reload_config cfg s) = cfg
   \<and> running (reload_config cfg s) = running s
   \<and> paused (reload_config cfg s) = paused s
   \<and> stream (reload_config cfg s) = stream s
   \<and> model (reload_config cfg s) = model s
   \<and> recognizer (reload_config cfg s) = recognizer s
   \<and> thread (reload_config cfg s) = thread s
   \<and> audio_queue (reload_config cfg s) = audio_queue s
   \<and> on_command (reload_config cfg s) = on_command s
   \<and> on_error (reload_config cfg s) = on_error s
   \<and> on_status (reload_config cfg s) = on_status s
   \<and> trace (reload_config cfg s) = trace s
   \<and> (\<not> paused s \<and> audio_queue s = data # rest \<and> recognizer s = Some fed
        \<and> AcceptWaveform env fed data = Final text \<and> text \<noteq> []
      \<longrightarrow> process_frame env (reload_config cfg s) =
            Continue
              (case match_command text cfg of
                 None \<Rightarrow> s\<lparr>config := cfg, audio_queue := rest, recognizer := Some (fed @ [data])\<rparr>
               | Some action \<Rightarrow>
                   if action = []
                   then s\<lparr>config := cfg, audio_queue := rest, recognizer := Some (fed @ [data])\<rparr>
                   else call_on_command action
                          (emit (snd (send_media_key (kbd env) action))
                             (s\<lparr>config := cfg, audio_queue := rest,
                                recognizer := Some (fed @ [data])\<rparr>))))"
  by (auto simp: reload_config_def process_frame_def handle_recognition_def Let_def
           split: option.splits)

theorem reload_config_frame_witness:
  "\<not> paused (listening\<lparr>audio_queue := [''pcm'']\<rparr>)
   \<and> audio_queue (listening\<lparr>audio_queue := [''pcm'']\<rparr>) = ''pcm'' # []
   \<and> recognizer (listening\<lparr>audio_queue := [''pcm'']\<rparr>) = Some []
   \<and> AcceptWaveform (calm_env\<lparr>AcceptWaveform := (\<lambda>fed data. Final ''hey music louder'')\<rparr>)
        [] ''pcm'' = Final ''hey music louder''
   \<and> ''hey music louder'' \<noteq> []
   \<and> match_command ''hey music louder'' DEFAULT_CONFIG = None
   \<and> match_command ''hey music louder''
        (DEFAULT_CONFIG\<lparr>commands := Some [(''next'', [''louder''])]\<rparr>) = Some ''next''
   \<and> process_frame (calm_env\<lparr>AcceptWaveform := (\<lambda>fed data. Final ''hey music louder'')\<rparr>)
        (reload_config (DEFAULT_CONFIG\<lparr>commands := Some [(''next'', [''louder''])]\<rparr>)
           (listening\<lparr>audio_queue := [''pcm'']\<rparr>))
     = Continue
         (listening
            \<lparr>config := DEFAULT_CONFIG\<lparr>commands := Some [(''next'', [''louder''])]\<rparr>,
             audio_queue := [], recognizer := Some [''pcm''],
             trace := [StreamStart, ThreadStart, OnStatus ''listening'',
                       Press media_next, Release media_next, OnCommand ''next'']\<rparr>)"
proof -
  have h1: "\<not> paused (listening\<lparr>audio_queue := [''pcm'']\<rparr>)" by code_simp
  have h2: "audio_queue (listening\<lparr>audio_queue := [''pcm'']\<rparr>) = ''pcm'' # []" by simp
  have h3: "recognizer (listening\<lparr>audio_queue := [''pcm'']\<rparr>) = Some []" by code_simp
  have h4: "AcceptWaveform (calm_env\<lparr>AcceptWaveform := (\<lambda>fed data. Final ''hey music louder'')\<rparr>)
        [] ''pcm'' = Final ''hey music louder''"
    by simp
  have h5: "''hey music louder'' \<noteq> []" by simp
  have m0: "match_command ''hey music louder'' DEFAULT_CONFIG = None" by code_simp
  have m1: "match_command ''hey music louder''
        (DEFAULT_CONFIG\<lparr>commands := Some [(''next'', [''louder''])]\<rparr>) = Some ''next''"
    by code_simp
  have v: "call_on_command ''next''
        (emit (snd (send_media_key
                 (kbd (calm_env\<lparr>AcceptWaveform := (\<lambda>fed data. Final ''hey music louder'')\<rparr>))
                 ''next''))
           (listening\<lparr>audio_queue := [''pcm'']\<rparr>
              \<lparr>config := DEFAULT_CONFIG\<lparr>commands := Some [(''next'', [''louder''])]\<rparr>,
               audio_queue := [], recognizer := Some ([] @ [''pcm''])\<rparr>))
     = listening
            \<lparr>config := DEFAULT_CONFIG\<lparr>commands := Some [(''next'', [''louder''])]\<rparr>,
             audio_queue := [], recognizer := Some [''pcm''],
             trace := [StreamStart, ThreadStart, OnStatus ''listening'',
                       Press media_next, Release media_next, OnCommand ''next'']\<rparr>"
    by code_simp
  have n: "(''next'' = []) = False" by simp
  note inst = reload_config_frame
      [of "DEFAULT_CONFIG\<lparr>commands := Some [(''next'', [''louder''])]\<rparr>"
          "listening\<lparr>audio_queue := [''pcm'']\<rparr>" "''pcm''" "[]" "[]"
          "calm_env\<lparr>AcceptWaveform := (\<lambda>fed data. Final ''hey music louder'')\<rparr>"
          "''hey music louder''"]
  note pass = inst[THEN conjunct2, THEN conjunct2, THEN conjunct2, THEN conjunct2,
      THEN conjunct2, THEN conjunct2, THEN conjunct2, THEN conjunct2, THEN conjunct2,
      THEN conjunct2, THEN conjunct2, THEN conjunct2]
  have p: "process_frame (calm_env\<lparr>AcceptWaveform := (\<lambda>fed data. Final ''hey music louder'')\<rparr>)
        (reload_config (DEFAULT_CONFIG\<lparr>commands := Some [(''next'', [''louder''])]\<rparr>)
           (listening\<lparr>audio_queue := [''pcm'']\<rparr>))
     = Continue
         (listening
            \<lparr>config := DEFAULT_CONFIG\<lparr>commands := Some [(''next'', [''louder''])]\<rparr>,
             audio_queue := [], recognizer := Some [''pcm''],
             trace := [StreamStart, ThreadStart, OnStatus ''listening'',
                       Press media_next, Release media_next, OnCommand ''next'']\<rparr>)"
    using mp[OF pass conjI[OF h1 conjI[OF h2 conjI[OF h3 conjI[OF h4 h5]]]]]
    unfolding m1 option.case n if_False v .
  show ?thesis
    by (rule conjI[OF h1 conjI[OF h2 conjI[OF h3 conjI[OF h4 conjI[OF h5 conjI[OF m0 conjI[OF m1 p]]]]]]])
qed

lemma audio_callback_paused: "paused s \<Longrightarrow> audio_callback indata s = s"
  by (simp add: audio_callback_def)

lemma fold_audio_callback_paused: "paused s \<Longrightarrow> fold audio_callback frames s = s"
  by (induction frames) (simp_all add: audio_callback_paused)

text \<open>
  C9: while the paused flag is set, the capture callback leaves the listener as it is,
  so the queue holds what it held however many buffers are delivered; and a pass of the
  worker that pops a frame while paused drops it without feeding the recognizer.
\<close>

theorem paused_discards_frames:
  assumes "paused s"
  shows "audio_callback indata s = s
    \<and> audio_queue (fold audio_callback frames s) = audio_queue s
    \<and> (audio_queue s = data # rest
        \<longrightarrow> process_frame env s = Continue (s\<lparr>audio_queue := rest\<rparr>))"
  using assms
  by (simp add: audio_callback_paused fold_audio_callback_paused process_frame_def Let_def)

theorem paused_discards_frames_witness:
  "paused (pause (listening\<lparr>audio_queue := [''old'']\<rparr>))
   \<and> audio_queue (pause (listening\<lparr>audio_queue := [''old'']\<rparr>)) = ''old'' # []
   \<and> audio_callback ''new'' (pause (listening\<lparr>audio_queue := [''old'']\<rparr>))
       = pause (listening\<lparr>audio_queue := [''old'']\<rparr>)
   \<and> audio_queue (fold audio_callback [''new'', ''newer'']
        (pause (listening\<lparr>audio_queue := [''old'']\<rparr>))) = [''old'']
   \<and> process_frame calm_env (pause (listening\<lparr>audio_queue := [''old'']\<rparr>))
       = Continue ((pause (listening\<lparr>audio_queue := [''old'']\<rparr>))\<lparr>audio_queue := []\<rparr>)
   \<and> audio_queue (audio_callback ''new'' (listening\<lparr>audio_queue := [''old'']\<rparr>))
       = [''old'', ''new'']"
proof -
  have h: "paused (pause (listening\<lparr>audio_queue := [''old'']\<rparr>))" by code_simp
  have q: "audio_queue (pause (listening\<lparr>audio_queue := [''old'']\<rparr>)) = ''old'' # []"
    by code_simp
  have u: "audio_queue (audio_callback ''new'' (listening\<lparr>audio_queue := [''old'']\<rparr>))
       = [''old'', ''new'']"
    by code_simp
  note inst = paused_discards_frames
      [OF h, of "''new''" "[''new'', ''newer'']" "''old''" "[]" calm_env]
  note r1 = inst[THEN conjunct1]
  note r2 = inst[THEN conjunct2, THEN conjunct1]
  note r3 = mp[OF inst[THEN conjunct2, THEN conjunct2] q]
  have q': "audio_queue (pause (listening\<lparr>audio_queue := [''old'']\<rparr>)) = [''old'']"
    using q .
  show ?thesis
    by (rule conjI[OF h conjI[OF q conjI[OF r1 conjI[OF trans[OF r2 q'] conjI[OF r3 u]]]]])
qed

text \<open>
  C2, on the code: when the engine raises on the frame the worker feeds it, nothing in
  \<^verbatim>\<open>_process_audio\<close> catches the exception. The loop ends with the exception escaping
  and the worker thread ends with it; no callback has been invoked, and the running flag
  is still set.
\<close>

theorem process_audio_engine_error_escapes:
  assumes "running s" and "\<not> paused s" and "audio_queue s = data # rest"
    and "recognizer s = Some fed" and "AcceptWaveform env fed data = Raises e"
  shows "process_audio (Suc fuel) env s
           = Some (Some e,
                   thread_ended (s\<lparr>audio_queue := rest, recognizer := Some (fed @ [data])\<rparr>))
    \<and> (\<forall>s'. process_audio (Suc fuel) env s = Some (Some e, s')
          \<longrightarrow> new_effects s s' = [] \<and> running s')"
  using assms
  by (simp add: process_frame_def Let_def new_effects_def thread_ended_def split: option.splits)

theorem process_audio_engine_error_escapes_witness:
  "running (listening\<lparr>audio_queue := [''pcm'']\<rparr>)
   \<and> \<not> paused (listening\<lparr>audio_queue := [''pcm'']\<rparr>)
   \<and> on_error (listening\<lparr>audio_queue := [''pcm'']\<rparr>)
   \<and> process_audio (Suc 0)
        (calm_env\<lparr>AcceptWaveform := (\<lambda>fed data. Raises (Exn ''Failed to process waveform''))\<rparr>)
        (listening\<lparr>audio_queue := [''pcm'']\<rparr>)
     = Some (Some (Exn ''Failed to process waveform''),
             listening\<lparr>audio_queue := [], recognizer := Some [''pcm''],
                       thread := Some (Thread False)\<rparr>)
   \<and> trace (listening\<lparr>audio_queue := [], recognizer := Some [''pcm''],
                       thread := Some (Thread False)\<rparr>)
       = [StreamStart, ThreadStart, OnStatus ''listening'']
   \<and> running (listening\<lparr>audio_queue := [], recognizer := Some [''pcm''],
                         thread := Some (Thread False)\<rparr>)"
proof -
  have h1: "running (listening\<lparr>audio_queue := [''pcm'']\<rparr>)" by code_simp
  have h2: "\<not> paused (listening\<lparr>audio_queue := [''pcm'']\<rparr>)" by code_simp
  have h3: "audio_queue (listening\<lparr>audio_queue := [''pcm'']\<rparr>) = ''pcm'' # []" by simp
  have h4: "recognizer (listening\<lparr>audio_queue := [''pcm'']\<rparr>) = Some []" by code_simp
  have h5: "AcceptWaveform
      (calm_env\<lparr>AcceptWaveform := (\<lambda>fed data. Raises (Exn ''Failed to process waveform''))\<rparr>)
      [] ''pcm'' = Raises (Exn ''Failed to process waveform'')"
    by simp
  have o: "on_error (listening\<lparr>audio_queue := [''pcm'']\<rparr>)" by code_simp
  have t: "trace (listening\<lparr>audio_queue := [], recognizer := Some [''pcm''],
                       thread := Some (Thread False)\<rparr>)
       = [StreamStart, ThreadStart, OnStatus ''listening'']"
    by code_simp
  have g: "running (listening\<lparr>audio_queue := [], recognizer := Some [''pcm''],
                         thread := Some (Thread False)\<rparr>)"
    by code_simp
  have u: "thread_ended
        (listening\<lparr>audio_queue := [''pcm'']\<rparr>
           \<lparr>audio_queue := [], recognizer := Some ([] @ [''pcm''])\<rparr>)
      = listening\<lparr>audio_queue := [], recognizer := Some [''pcm''],
                  thread := Some (Thread False)\<rparr>"
    by code_simp
  note inst = process_audio_engine_error_escapes[OF h1 h2 h3 h4 h5, of 0, THEN conjunct1]
  have r: "process_audio (Suc 0)
        (calm_env\<lparr>AcceptWaveform := (\<lambda>fed data. Raises (Exn ''Failed to process waveform''))\<rparr>)
        (listening\<lparr>audio_queue := [''pcm'']\<rparr>)
     = Some (Some (Exn ''Failed to process waveform''),
             listening\<lparr>audio_queue := [], recognizer := Some [''pcm''],
                       thread := Some (Thread False)\<rparr>)"
    using inst unfolding u .
  show ?thesis
    by (rule conjI[OF h1 conjI[OF h2 conjI[OF o conjI[OF r conjI[OF t g]]]]])
qed

end
